theory Spec2Isabelle
  imports Main
begin

section \<open>Python strings\<close>

text \<open>
  A Python \<open>str\<close> is a sequence of Unicode code points: a list of natural numbers.
  \<open>ustr\<close> writes a literal, \<open>ord\<close> one character of a literal.
\<close>

type_synonym pystr = "nat list"

abbreviation ord :: "char \<Rightarrow> nat" where
  "ord c \<equiv> of_char c"

abbreviation ustr :: "string \<Rightarrow> pystr" where
  "ustr s \<equiv> map of_char s"

text \<open>\<open>str.isspace\<close> on one code point, the whitespace of \<open>str.strip()\<close> and
  \<open>str.split()\<close>: the controls \<open>U+0009\<close> to \<open>U+000D\<close> and \<open>U+001C\<close> to \<open>U+001F\<close>, the space,
  \<open>U+0085\<close>, \<open>U+00A0\<close>, \<open>U+1680\<close>, \<open>U+2000\<close> to \<open>U+200A\<close>, \<open>U+2028\<close>, \<open>U+2029\<close>, \<open>U+202F\<close>,
  \<open>U+205F\<close> and \<open>U+3000\<close>.\<close>

definition py_isspace :: "nat \<Rightarrow> bool" where
  "py_isspace c \<longleftrightarrow> c \<in> set [0x09, 0x0A, 0x0B, 0x0C, 0x0D, 0x1C, 0x1D, 0x1E, 0x1F, 0x20,
     0x85, 0xA0, 0x1680, 0x2000, 0x2001, 0x2002, 0x2003, 0x2004, 0x2005, 0x2006, 0x2007,
     0x2008, 0x2009, 0x200A, 0x2028, 0x2029, 0x202F, 0x205F, 0x3000]"

text \<open>\<open>s.strip()\<close>\<close>

definition strip :: "pystr \<Rightarrow> pystr" where
  "strip s = rev (dropWhile py_isspace (rev (dropWhile py_isspace s)))"

text \<open>\<open>s.startswith(p)\<close>\<close>

definition startswith :: "pystr \<Rightarrow> pystr \<Rightarrow> bool" where
  "startswith s p \<longleftrightarrow> take (length p) s = p"

text \<open>One split at the last occurrence of the separator: \<open>None\<close> when it does not occur.\<close>

definition rsplit_once :: "nat \<Rightarrow> pystr \<Rightarrow> (pystr \<times> pystr) option" where
  "rsplit_once sep s =
     (if sep \<in> set s
      then Some (rev (tl (dropWhile (\<lambda>c. c \<noteq> sep) (rev s))),
                 rev (takeWhile (\<lambda>c. c \<noteq> sep) (rev s)))
      else None)"

text \<open>\<open>s.rsplit(sep, maxsplit)\<close> for a one-character separator.\<close>

fun rsplit :: "nat \<Rightarrow> nat \<Rightarrow> pystr \<Rightarrow> pystr list" where
  "rsplit sep 0 s = [s]"
| "rsplit sep (Suc n) s =
     (case rsplit_once sep s of
        None \<Rightarrow> [s]
      | Some (h, t) \<Rightarrow> rsplit sep n h @ [t])"

text \<open>\<open>s.split()\<close>: the maximal runs of non-whitespace, scanned left to right;
  \<open>cur\<close> is the current run, reversed.\<close>

fun split_scan :: "pystr \<Rightarrow> pystr \<Rightarrow> pystr list" where
  "split_scan cur [] = (if cur = [] then [] else [rev cur])"
| "split_scan cur (c # cs) =
     (if py_isspace c
      then (if cur = [] then split_scan [] cs else rev cur # split_scan [] cs)
      else split_scan (c # cur) cs)"

definition split_ws :: "pystr \<Rightarrow> pystr list" where
  "split_ws s = split_scan [] s"

text \<open>\<open>sep.join(parts)\<close>\<close>

fun join :: "pystr \<Rightarrow> pystr list \<Rightarrow> pystr" where
  "join sep [] = []"
| "join sep [p] = p"
| "join sep (p # q # ps) = p @ sep @ join sep (q # ps)"

text \<open>\<open>str(n)\<close> for a non-negative integer.\<close>

definition digit_char :: "nat \<Rightarrow> nat" where
  "digit_char d = ord CHR ''0'' + d"

fun str_nat :: "nat \<Rightarrow> pystr" where
  "str_nat n = (if n < 10 then [digit_char n] else str_nat (n div 10) @ [digit_char (n mod 10)])"

declare str_nat.simps [simp del]

section \<open>Python floats\<close>

text \<open>
  A Python \<open>float\<close> is an IEEE-754 binary64 value. \<open>PyFinite s m e\<close> is the finite value
  \<open>(-1)^s * m * 2^e\<close>; the conversions below produce \<open>m < 2^53\<close> with
  \<open>-1074 \<le> e \<le> 971\<close>, and \<open>2^52 \<le> m\<close> unless \<open>e = -1074\<close> (zero and the subnormals).
  \<open>PyInf s\<close> is the infinity of sign \<open>s\<close>.
\<close>

datatype pyfloat = PyFinite bool nat int | PyInf bool | PyNaN

text \<open>The number of binary digits of \<open>n\<close>.\<close>

fun bitlen :: "nat \<Rightarrow> nat" where
  "bitlen n = (if n = 0 then 0 else Suc (bitlen (n div 2)))"

declare bitlen.simps [simp del]

text \<open>\<open>p / q\<close> rounded to the nearest integer, ties to even.\<close>

definition round_half_even :: "nat \<Rightarrow> nat \<Rightarrow> nat" where
  "round_half_even p q =
     (let d = p div q; r = p mod q
      in if q < 2 * r \<or> (2 * r = q \<and> odd d) then d + 1 else d)"

text \<open>\<open>p / q \<ge> 2^k\<close>, for \<open>q > 0\<close>.\<close>

definition ge_pow2 :: "nat \<Rightarrow> nat \<Rightarrow> int \<Rightarrow> bool" where
  "ge_pow2 p q k \<longleftrightarrow> (if 0 \<le> k then q * 2 ^ nat k \<le> p else q \<le> p * 2 ^ nat (- k))"

text \<open>The binary64 value nearest to \<open>p / q\<close> (\<open>q > 0\<close>), ties to even, with sign \<open>s\<close>:
  what the correctly rounding \<open>strtod\<close> of CPython and IEEE addition return. A value past
  the largest finite one becomes an infinity, one below half the smallest subnormal a zero.\<close>

definition to_double :: "bool \<Rightarrow> nat \<Rightarrow> nat \<Rightarrow> pyfloat" where
  "to_double s p q =
     (if p = 0 then PyFinite s 0 (- 1074)
      else
        let k = int (bitlen p) - int (bitlen q);
            lg = (if ge_pow2 p q k then k else k - 1);
            e = max (lg - 52) (- 1074);
            m = (if 0 \<le> e then round_half_even p (q * 2 ^ nat e)
                 else round_half_even (p * 2 ^ nat (- e)) q);
            e' = (if m = 2 ^ 53 then e + 1 else e);
            m' = (if m = 2 ^ 53 then 2 ^ 52 else m)
        in if 971 < e' then PyInf s else PyFinite s m' e')"

subsection \<open>\<open>float(s)\<close>\<close>

text \<open>
  \<open>float\<close> first brings the text to ASCII: a code point below 128 stays, a whitespace
  code point becomes a blank, a Unicode decimal digit becomes its ASCII digit, and any
  other code point becomes \<open>?\<close>, which no numeral contains. The Unicode database of the
  interpreter decides which code points are decimal digits: \<open>decimal\<close>, a parameter of
  the model, gives the digit value of a code point (\<open>Py_UNICODE_TODECIMAL\<close>).
\<close>

definition to_ascii :: "(nat \<Rightarrow> nat option) \<Rightarrow> nat \<Rightarrow> nat" where
  "to_ascii decimal c =
     (if c < 128 then c
      else if py_isspace c then ord CHR '' ''
      else (case decimal c of
              Some d \<Rightarrow> if d < 10 then ord CHR ''0'' + d else ord CHR ''?''
            | None \<Rightarrow> ord CHR ''?''))"

definition is_digit :: "nat \<Rightarrow> bool" where
  "is_digit c \<longleftrightarrow> ord CHR ''0'' \<le> c \<and> c \<le> ord CHR ''9''"

definition digit_val :: "nat \<Rightarrow> nat" where
  "digit_val c = c - ord CHR ''0''"

definition digits_val :: "pystr \<Rightarrow> nat" where
  "digits_val ds = foldl (\<lambda>n c. 10 * n + digit_val c) 0 ds"

text \<open>The whitespace \<open>float\<close> strips from the ASCII text: the C locale's. The separators
  \<open>U+001C\<close> to \<open>U+001F\<close>, which \<open>str.strip()\<close> removes, are not among them.\<close>

definition c_isspace :: "nat \<Rightarrow> bool" where
  "c_isspace c \<longleftrightarrow> c \<in> set [0x09, 0x0A, 0x0B, 0x0C, 0x0D, 0x20]"

text \<open>Underscores are allowed between two digits only, and are removed; \<open>prev\<close> is the
  character before.\<close>

fun strip_underscores :: "nat \<Rightarrow> pystr \<Rightarrow> pystr option" where
  "strip_underscores prev [] = (if prev = ord CHR ''_'' then None else Some [])"
| "strip_underscores prev (c # cs) =
     (if c = ord CHR ''_''
      then (if is_digit prev then strip_underscores c cs else None)
      else if prev = ord CHR ''_'' \<and> \<not> is_digit c then None
      else map_option ((#) c) (strip_underscores c cs))"

definition ascii_lower :: "nat \<Rightarrow> nat" where
  "ascii_lower c = (if ord CHR ''A'' \<le> c \<and> c \<le> ord CHR ''Z'' then c + 32 else c)"

text \<open>An optional sign.\<close>

definition take_sign :: "pystr \<Rightarrow> bool \<times> pystr" where
  "take_sign s =
     (case s of
        c # cs \<Rightarrow>
          if c = ord CHR ''-'' then (True, cs)
          else if c = ord CHR ''+'' then (False, cs)
          else (False, s)
      | [] \<Rightarrow> (False, s))"

text \<open>The exponent part: nothing, or \<open>e\<close>/\<open>E\<close>, an optional sign and at least one digit,
  up to the end of the text.\<close>

definition parse_exponent :: "pystr \<Rightarrow> int option" where
  "parse_exponent s =
     (case s of
        [] \<Rightarrow> Some 0
      | c # cs \<Rightarrow>
          if c = ord CHR ''e'' \<or> c = ord CHR ''E'' then
            (let (neg, ds) = take_sign cs
             in if ds \<noteq> [] \<and> list_all is_digit ds
                then Some (if neg then - int (digits_val ds) else int (digits_val ds))
                else None)
          else None)"

text \<open>A decimal numeral without its sign: digits, an optional point and digits, at least
  one digit in all, an optional exponent. The result is the fraction \<open>(p, q)\<close> it denotes.\<close>

definition parse_decimal :: "pystr \<Rightarrow> (nat \<times> nat) option" where
  "parse_decimal s =
     (let ip = takeWhile is_digit s;
          r1 = dropWhile is_digit s;
          fp = (case r1 of c # cs \<Rightarrow> if c = ord CHR ''.'' then takeWhile is_digit cs else []
                | [] \<Rightarrow> []);
          r2 = (case r1 of c # cs \<Rightarrow> if c = ord CHR ''.'' then dropWhile is_digit cs else r1
                | [] \<Rightarrow> [])
      in if ip = [] \<and> fp = [] then None
         else
           (case parse_exponent r2 of
              None \<Rightarrow> None
            | Some ex \<Rightarrow>
                let d = digits_val (ip @ fp);
                    x = ex - int (length fp)
                in if 0 \<le> x then Some (d * 10 ^ nat x, 1) else Some (d, 10 ^ nat (- x))))"

text \<open>\<open>float(s)\<close> for a \<open>str\<close>; \<open>None\<close> is \<open>ValueError\<close>.\<close>

definition py_float :: "(nat \<Rightarrow> nat option) \<Rightarrow> pystr \<Rightarrow> pyfloat option" where
  "py_float decimal s0 =
     (let a = map (to_ascii decimal) s0 in
      case (if ord CHR ''_'' \<in> set a then strip_underscores 0 a else Some a) of
        None \<Rightarrow> None
      | Some s1 \<Rightarrow>
          let s = rev (dropWhile c_isspace (rev (dropWhile c_isspace s1)));
              (neg, body) = take_sign s;
              low = map ascii_lower body
          in if low = ustr ''inf'' \<or> low = ustr ''infinity'' then Some (PyInf neg)
             else if low = ustr ''nan'' then Some PyNaN
             else (case parse_decimal body of
                     None \<Rightarrow> None
                   | Some (p, q) \<Rightarrow> Some (to_double neg p q)))"

subsection \<open>Addition and formatting\<close>

text \<open>\<open>x + y\<close> on floats: the exact sum, rounded once. A zero sum of two finite values is
  \<open>-0.0\<close> only when both are negative zeros.\<close>

definition float_add :: "pyfloat \<Rightarrow> pyfloat \<Rightarrow> pyfloat" where
  "float_add x y =
     (case (x, y) of
        (PyNaN, _) \<Rightarrow> PyNaN
      | (_, PyNaN) \<Rightarrow> PyNaN
      | (PyInf s, PyInf t) \<Rightarrow> if s = t then PyInf s else PyNaN
      | (PyInf s, PyFinite _ _ _) \<Rightarrow> PyInf s
      | (PyFinite _ _ _, PyInf t) \<Rightarrow> PyInf t
      | (PyFinite s m e, PyFinite t n f) \<Rightarrow>
          let g = min e f;
              a = (if s then - 1 else 1) * int m * 2 ^ nat (e - g);
              b = (if t then - 1 else 1) * int n * 2 ^ nat (f - g);
              c = a + b
          in if c = 0 then PyFinite (s \<and> t \<and> m = 0 \<and> n = 0) 0 (- 1074)
             else if 0 \<le> g then to_double (c < 0) (nat \<bar>c\<bar> * 2 ^ nat g) 1
             else to_double (c < 0) (nat \<bar>c\<bar>) (2 ^ nat (- g)))"

text \<open>Three digits, with leading zeros.\<close>

definition pad3 :: "nat \<Rightarrow> pystr" where
  "pad3 n = [digit_char (n div 100 mod 10), digit_char (n div 10 mod 10), digit_char (n mod 10)]"

text \<open>\<open>f"{x:.3f}"\<close>: the exact value rounded to thousandths, ties to even.\<close>

definition format_3f :: "pyfloat \<Rightarrow> pystr" where
  "format_3f x =
     (case x of
        PyNaN \<Rightarrow> ustr ''nan''
      | PyInf s \<Rightarrow> (if s then ustr ''-inf'' else ustr ''inf'')
      | PyFinite s m e \<Rightarrow>
          let n = (if 0 \<le> e then m * 2 ^ nat e * 1000
                   else round_half_even (m * 1000) (2 ^ nat (- e)))
          in (if s then ustr ''-'' else []) @ str_nat (n div 1000) @ ustr ''.'' @ pad3 (n mod 1000))"

section \<open>The line parser\<close>

record cut =
  path :: pystr
  start :: pyfloat
  length_sec :: pyfloat

text \<open>
  \<open>parse_edl_line\<close> returns the dict (or \<open>None\<close>) together with the lines it printed.
  A \<open>ValueError\<close> of either \<open>float\<close> call is caught by the one handler, which prints the
  warning with the stripped line.
\<close>

definition warn_invalid :: "pystr \<Rightarrow> cut option \<times> pystr list" where
  "warn_invalid line = (None, [ustr ''[Warn] Skipping invalid line format: '' @ line])"

definition parse_edl_line :: "(nat \<Rightarrow> nat option) \<Rightarrow> pystr \<Rightarrow> cut option \<times> pystr list" where
  "parse_edl_line decimal line0 =
     (let line = strip line0 in
      if line = [] \<or> startswith line (ustr ''#'') then (None, [])
      else
        let parts = rsplit (ord CHR '','') 2 line in
        if length parts \<noteq> 3 then
          (let parts = split_ws line in
           if length parts < 3 then (None, [])
           else
             let path' = join (ustr '' '') (take (length parts - 2) parts) in
             case py_float decimal (parts ! (length parts - 2)) of
               None \<Rightarrow> warn_invalid line
             | Some start' \<Rightarrow>
                 (case py_float decimal (parts ! (length parts - 1)) of
                    None \<Rightarrow> warn_invalid line
                  | Some length' \<Rightarrow>
                      (Some \<lparr>path = path', start = start', length_sec = length'\<rparr>, [])))
        else
          (let path' = strip (parts ! 0) in
           case py_float decimal (parts ! 1) of
             None \<Rightarrow> warn_invalid line
           | Some start' \<Rightarrow>
               (case py_float decimal (parts ! 2) of
                  None \<Rightarrow> warn_invalid line
                | Some length' \<Rightarrow>
                    (Some \<lparr>path = path', start = start', length_sec = length'\<rparr>, []))))"

section \<open>The project builder\<close>

subsection \<open>The element tree\<close>

text \<open>
  An \<open>xml.etree.ElementTree.Element\<close>: its tag, its attributes in insertion order, its
  text and its children.
\<close>

datatype element =
  Element (etag: pystr) (eattrib: "(pystr \<times> pystr) list") (etext: "pystr option")
    (echildren: "element list")

text \<open>\<open>ET.Element(tag)\<close>\<close>

definition new_element :: "pystr \<Rightarrow> element" where
  "new_element t = Element t [] None []"

text \<open>\<open>elem.set(key, value)\<close>: a dict store, which keeps the place of a key already there.\<close>

fun dict_set :: "'k \<Rightarrow> 'v \<Rightarrow> ('k \<times> 'v) list \<Rightarrow> ('k \<times> 'v) list" where
  "dict_set k v [] = [(k, v)]"
| "dict_set k v ((k', v') # kvs) = (if k' = k then (k, v) # kvs else (k', v') # dict_set k v kvs)"

definition set_attr :: "pystr \<Rightarrow> pystr \<Rightarrow> element \<Rightarrow> element" where
  "set_attr k v e = Element (etag e) (dict_set k v (eattrib e)) (etext e) (echildren e)"

text \<open>\<open>elem.text = t\<close>\<close>

definition set_text :: "pystr \<Rightarrow> element \<Rightarrow> element" where
  "set_text t e = Element (etag e) (eattrib e) (Some t) (echildren e)"

text \<open>
  \<open>ET.SubElement(parent, tag)\<close> appends a new child to \<open>parent\<close> and returns it; the
  source then fills the child in through that reference. The model builds the child
  first and appends it complete.
\<close>

definition append_child :: "element \<Rightarrow> element \<Rightarrow> element" where
  "append_child c e = Element (etag e) (eattrib e) (etext e) (echildren e @ [c])"

subsection \<open>Reading the cuts\<close>

text \<open>
  The state of the reading loop: the list \<open>cuts\<close>, the dict \<open>unique_paths\<close> in
  insertion order, \<open>producer_counter\<close>, and the lines the parser printed.
\<close>

record scan_state =
  cuts :: "cut list"
  unique_paths :: "(pystr \<times> pystr) list"
  producer_counter :: nat
  printed :: "pystr list"

definition scan_init :: scan_state where
  "scan_init = \<lparr>cuts = [], unique_paths = [], producer_counter = 0, printed = []\<rparr>"

text \<open>The body of \<open>for line in f\<close>.\<close>

definition scan_step :: "(nat \<Rightarrow> nat option) \<Rightarrow> scan_state \<Rightarrow> pystr \<Rightarrow> scan_state" where
  "scan_step decimal st line =
     (let (data, out) = parse_edl_line decimal line;
          st1 = st\<lparr>printed := printed st @ out\<rparr>
      in case data of
           None \<Rightarrow> st1
         | Some d \<Rightarrow>
             let st2 = st1\<lparr>cuts := cuts st1 @ [d]\<rparr>
             in if path d \<notin> set (map fst (unique_paths st2))
                then st2\<lparr>unique_paths := unique_paths st2 @
                            [(path d, ustr ''producer'' @ str_nat (producer_counter st2))],
                          producer_counter := producer_counter st2 + 1\<rparr>
                else st2)"

definition read_edl :: "(nat \<Rightarrow> nat option) \<Rightarrow> pystr list \<Rightarrow> scan_state" where
  "read_edl decimal lines = foldl (scan_step decimal) scan_init lines"

subsection \<open>Building the document\<close>

datatype py_exception = KeyError pystr | XMLError

text \<open>One \<open>producer\<close> element with its \<open>resource\<close> property.\<close>

definition producer_element :: "pystr \<times> pystr \<Rightarrow> element" where
  "producer_element kv =
     (case kv of (path', pid) \<Rightarrow>
        append_child
          (set_text path' (set_attr (ustr ''name'') (ustr ''resource'') (new_element (ustr ''property''))))
          (set_attr (ustr ''id'') pid (new_element (ustr ''producer''))))"

text \<open>One playlist \<open>entry\<close>: \<open>end_sec = start_sec + length_sec\<close>, both points formatted
  with \<open>.3f\<close>.\<close>

definition entry_element :: "pystr \<Rightarrow> cut \<Rightarrow> element" where
  "entry_element pid c =
     (let start_sec = start c;
          length_sec' = length_sec c;
          end_sec = float_add start_sec length_sec'
      in set_attr (ustr ''out'') (format_3f end_sec)
           (set_attr (ustr ''in'') (format_3f start_sec)
              (set_attr (ustr ''producer'') pid (new_element (ustr ''entry'')))))"

text \<open>The loop over the cuts; \<open>unique_paths[cut['path']]\<close> raises \<open>KeyError\<close> on a
  missing key.\<close>

fun add_entries :: "(pystr \<times> pystr) list \<Rightarrow> cut list \<Rightarrow> element \<Rightarrow> py_exception + element" where
  "add_entries up [] playlist = Inr playlist"
| "add_entries up (c # cs) playlist =
     (case map_of up (path c) of
        None \<Rightarrow> Inl (KeyError (path c))
      | Some pid \<Rightarrow> add_entries up cs (append_child (entry_element pid c) playlist))"

definition mlt_root :: element where
  "mlt_root =
     set_attr (ustr ''producer'') (ustr ''maintractor'')
       (set_attr (ustr ''title'') (ustr ''EDL Import'')
          (set_attr (ustr ''version'') (ustr ''7.0'') (new_element (ustr ''mlt''))))"

definition tractor_element :: element where
  "tractor_element =
     append_child (set_attr (ustr ''producer'') (ustr ''playlist0'') (new_element (ustr ''track'')))
       (set_attr (ustr ''id'') (ustr ''maintractor'') (new_element (ustr ''tractor'')))"

text \<open>Steps 1 and 3 to 5 of \<open>create_kdenlive_project\<close>: the tree handed to the
  serializer.\<close>

definition build_document :: "cut list \<Rightarrow> (pystr \<times> pystr) list \<Rightarrow> py_exception + element" where
  "build_document cs up =
     (let root = foldl (\<lambda>r kv. append_child (producer_element kv) r) mlt_root up
      in case add_entries up cs (set_attr (ustr ''id'') (ustr ''playlist0'') (new_element (ustr ''playlist''))) of
           Inl ex \<Rightarrow> Inl ex
         | Inr playlist \<Rightarrow> Inr (append_child tractor_element (append_child playlist root)))"

subsection \<open>The run\<close>

text \<open>
  The world the program acts on: the text files by path (a missing path is a missing
  file; a file that is present is readable text), the paths that cannot be opened for
  writing with the text of their error, and the lines printed so far. Decoding and
  newline translation belong to the file layer: a file's text is what Python's text
  mode presents.
\<close>

record world =
  files :: "pystr \<Rightarrow> pystr option"
  write_error :: "pystr \<Rightarrow> pystr option"
  stdout :: "pystr list"

definition py_print :: "pystr \<Rightarrow> world \<Rightarrow> world" where
  "py_print s w = w\<lparr>stdout := stdout w @ [s]\<rparr>"

text \<open>The lines a text file yields when iterated: each ends with its newline, the last
  one possibly without; \<open>cur\<close> is the current line, reversed.\<close>

fun lines_scan :: "pystr \<Rightarrow> pystr \<Rightarrow> pystr list" where
  "lines_scan cur [] = (if cur = [] then [] else [rev cur])"
| "lines_scan cur (c # cs) =
     (if c = 0x0A then rev (c # cur) # lines_scan [] cs else lines_scan (c # cur) cs)"

definition file_lines :: "pystr \<Rightarrow> pystr list" where
  "file_lines content = lines_scan [] content"

datatype outcome = Returned | Raised py_exception

text \<open>
  \<open>create_kdenlive_project(edl_path, output_path)\<close>. The parameter \<open>serialize\<close> stands
  for the XML library: \<open>minidom.parseString(ET.tostring(root)).toprettyxml(indent="  ")\<close>,
  with \<open>None\<close> where it raises. Only \<open>FileNotFoundError\<close> (reading) and \<open>IOError\<close>
  (writing) are caught; any other exception leaves the function.
\<close>

definition create_kdenlive_project ::
  "(nat \<Rightarrow> nat option) \<Rightarrow> (element \<Rightarrow> pystr option) \<Rightarrow> pystr \<Rightarrow> pystr \<Rightarrow> world
     \<Rightarrow> outcome \<times> world" where
  "create_kdenlive_project decimal serialize edl_path output_path w0 =
     (let w1 = py_print (ustr ''Reading EDL: '' @ edl_path) w0 in
      case files w1 edl_path of
        None \<Rightarrow> (Returned, py_print (ustr ''Error: EDL file not found.'') w1)
      | Some content \<Rightarrow>
          let st = read_edl decimal (file_lines content);
              w2 = w1\<lparr>stdout := stdout w1 @ printed st\<rparr>
          in if cuts st = []
             then (Returned, py_print (ustr ''Error: No valid cuts found in EDL.'') w2)
             else
               let w3 = py_print (ustr ''Found '' @ str_nat (length (unique_paths st)) @
                          ustr '' unique source files.'') w2;
                   w4 = py_print (ustr ''Processing '' @ str_nat (length (cuts st)) @
                          ustr '' cuts...'') w3
               in case build_document (cuts st) (unique_paths st) of
                    Inl ex \<Rightarrow> (Raised ex, w4)
                  | Inr root \<Rightarrow>
                      (case serialize root of
                         None \<Rightarrow> (Raised XMLError, w4)
                       | Some xml_str \<Rightarrow>
                           (case write_error w4 output_path of
                              Some err \<Rightarrow>
                                (Returned,
                                 py_print (ustr ''Error writing output file: '' @ err) w4)
                            | None \<Rightarrow>
                                (Returned,
                                 py_print (ustr ''Success! Project saved to: '' @ output_path)
                                   (w4\<lparr>files := (files w4)(output_path \<mapsto> xml_str)\<rparr>)))))"

section \<open>Notions of the specification\<close>

text \<open>
  The definitions of this section are not code of the program: they state what the
  specification speaks of, and the theorems compare them with the code above.
\<close>

text \<open>The distinct elements of a list in the order of their first appearance.\<close>

fun first_seen :: "'a list \<Rightarrow> 'a list" where
  "first_seen [] = []"
| "first_seen (x # xs) = x # filter (\<lambda>y. y \<noteq> x) (first_seen xs)"

text \<open>The position of the first occurrence of \<open>x\<close>.\<close>

fun index_of :: "'a list \<Rightarrow> 'a \<Rightarrow> nat" where
  "index_of [] x = 0"
| "index_of (y # ys) x = (if x = y then 0 else Suc (index_of ys x))"

text \<open>The identifiers \<open>producer0\<close>, \<open>producer1\<close>, ...\<close>

definition producer_id :: "nat \<Rightarrow> pystr" where
  "producer_id i = ustr ''producer'' @ str_nat i"

text \<open>The source registry of a sequence of paths: each distinct path, in the order of first
  appearance, with the identifier of its position.\<close>

definition registry :: "pystr list \<Rightarrow> (pystr \<times> pystr) list" where
  "registry ps = zip (first_seen ps) (map producer_id [0..<length (first_seen ps)])"

text \<open>The cut records of the lines the parser accepts, in line order.\<close>

primrec accepted_cuts :: "(nat \<Rightarrow> nat option) \<Rightarrow> pystr list \<Rightarrow> cut list" where
  "accepted_cuts decimal [] = []"
| "accepted_cuts decimal (l # ls) =
     (case fst (parse_edl_line decimal l) of
        None \<Rightarrow> accepted_cuts decimal ls
      | Some d \<Rightarrow> d # accepted_cuts decimal ls)"

text \<open>The project document as a function of the cut sequence alone.\<close>

definition document_of :: "cut list \<Rightarrow> element" where
  "document_of cs =
     Element (ustr ''mlt'')
       [(ustr ''version'', ustr ''7.0''), (ustr ''title'', ustr ''EDL Import''),
        (ustr ''producer'', ustr ''maintractor'')] None
       (map producer_element (registry (map path cs)) @
        [Element (ustr ''playlist'') [(ustr ''id'', ustr ''playlist0'')] None
           (map (\<lambda>c. entry_element (producer_id (index_of (first_seen (map path cs)) (path c))) c) cs),
         Element (ustr ''tractor'') [(ustr ''id'', ustr ''maintractor'')] None
           [Element (ustr ''track'') [(ustr ''producer'', ustr ''playlist0'')] None []]])"

text \<open>The invariant of the reading loop.\<close>

definition scan_ok :: "scan_state \<Rightarrow> bool" where
  "scan_ok st \<longleftrightarrow> unique_paths st = registry (map path (cuts st)) \<and>
     producer_counter st = length (unique_paths st)"

text \<open>The producer descriptors and the playlist entries of a document.\<close>

definition producers_of :: "element \<Rightarrow> element list" where
  "producers_of root = filter (\<lambda>e. etag e = ustr ''producer'') (echildren root)"

definition entries_of :: "element \<Rightarrow> element list" where
  "entries_of root =
     concat (map echildren (filter (\<lambda>e. etag e = ustr ''playlist'') (echildren root)))"

text \<open>\<open>x >= 0\<close> on floats.\<close>

definition py_ge0 :: "pyfloat \<Rightarrow> bool" where
  "py_ge0 x = (case x of PyFinite s m e \<Rightarrow> \<not> s \<or> m = 0 | PyInf s \<Rightarrow> \<not> s | PyNaN \<Rightarrow> False)"

definition is_finite :: "pyfloat \<Rightarrow> bool" where
  "is_finite x = (case x of PyFinite s m e \<Rightarrow> True | PyInf s \<Rightarrow> False | PyNaN \<Rightarrow> False)"

text \<open>A fixed three-decimal string: an optional minus sign, at least one digit, a point
  and exactly three digits.\<close>

definition fixed3 :: "pystr \<Rightarrow> bool" where
  "fixed3 t =
     (let u = (case t of c # cs \<Rightarrow> if c = ord CHR ''-'' then cs else t | [] \<Rightarrow> t);
          ip = takeWhile is_digit u;
          r = dropWhile is_digit u
      in ip \<noteq> [] \<and>
         (case r of
            c # fr \<Rightarrow> c = ord CHR ''.'' \<and> length fr = 3 \<and> list_all is_digit fr
          | [] \<Rightarrow> False))"

text \<open>The text of the start field of a line: the second of the three comma parts, or the
  token before the last of the whitespace split.\<close>

definition start_field :: "pystr \<Rightarrow> pystr" where
  "start_field line =
     (let parts = rsplit (ord CHR '','') 2 (strip line);
          toks = split_ws (strip line)
      in if length parts = 3 then parts ! 1 else toks ! (length toks - 2))"

text \<open>What a run prints before it serializes the document.\<close>

definition progress_lines :: "(nat \<Rightarrow> nat option) \<Rightarrow> pystr \<Rightarrow> pystr list \<Rightarrow> pystr list" where
  "progress_lines decimal edl_path ls =
     [ustr ''Reading EDL: '' @ edl_path] @
     concat (map (\<lambda>l. snd (parse_edl_line decimal l)) ls) @
     [ustr ''Found '' @ str_nat (length (first_seen (map path (accepted_cuts decimal ls)))) @
        ustr '' unique source files.'',
      ustr ''Processing '' @ str_nat (length (accepted_cuts decimal ls)) @ ustr '' cuts...'']"

section \<open>Facts about the string functions\<close>

lemma rsplit_once_last:
  assumes "sep \<notin> set b"
  shows "rsplit_once sep (a @ sep # b) = Some (a, b)"
proof -
  have d: "dropWhile (\<lambda>c. c \<noteq> sep) (rev b @ sep # rev a) = sep # rev a"
    using assms by (auto simp: dropWhile_append3)
  have "takeWhile (\<lambda>c. c \<noteq> sep) (rev b @ sep # rev a) =
      rev b @ takeWhile (\<lambda>c. c \<noteq> sep) (sep # rev a)"
    by (rule takeWhile_append2) (use assms in auto)
  then have t: "takeWhile (\<lambda>c. c \<noteq> sep) (rev b @ sep # rev a) = rev b"
    by simp
  show ?thesis by (simp add: rsplit_once_def d t)
qed

lemma rsplit_two:
  assumes "sep \<notin> set p1" "sep \<notin> set p2"
  shows "rsplit sep 2 (p0 @ sep # p1 @ sep # p2) = [p0, p1, p2]"
proof -
  have a: "rsplit_once sep ((p0 @ sep # p1) @ sep # p2) = Some (p0 @ sep # p1, p2)"
    using assms(2) by (rule rsplit_once_last)
  have b: "rsplit_once sep (p0 @ sep # p1) = Some (p0, p1)"
    using assms(1) by (rule rsplit_once_last)
  have "rsplit sep (Suc (Suc 0)) ((p0 @ sep # p1) @ sep # p2) = [p0, p1, p2]"
    by (simp only: rsplit.simps a b option.case prod.case) simp
  then show ?thesis by (simp add: numeral_2_eq_2)
qed

lemma rsplit_no_sep: "sep \<notin> set s \<Longrightarrow> rsplit sep n s = [s]"
  by (cases n) (simp_all add: rsplit_once_def)

lemma strip_fixed:
  assumes "s \<noteq> []" and "\<not> py_isspace (hd s)" and "\<not> py_isspace (last s)"
  shows "strip s = s"
proof -
  have a: "dropWhile py_isspace s = s" using assms(1,2) by (cases s) simp_all
  have "rev s \<noteq> []" "\<not> py_isspace (hd (rev s))" using assms(1,3) by (simp_all add: hd_rev)
  then have b: "dropWhile py_isspace (rev s) = rev s" by (cases "rev s") simp_all
  show ?thesis by (simp add: strip_def a b)
qed

section \<open>The three outcomes of the parser\<close>

lemma parse_skip:
  "strip line = [] \<or> startswith (strip line) (ustr ''#'') \<Longrightarrow>
     parse_edl_line decimal line = (None, [])"
  by (auto simp: parse_edl_line_def Let_def)

lemma parse_comma:
  assumes "strip line \<noteq> []" "\<not> startswith (strip line) (ustr ''#'')"
    and "rsplit (ord CHR '','') 2 (strip line) = [p0, p1, p2]"
  shows "parse_edl_line decimal line =
    (case py_float decimal p1 of
       None \<Rightarrow> warn_invalid (strip line)
     | Some s \<Rightarrow>
         (case py_float decimal p2 of
            None \<Rightarrow> warn_invalid (strip line)
          | Some l \<Rightarrow> (Some \<lparr>path = strip p0, start = s, length_sec = l\<rparr>, [])))"
  using assms by (simp add: parse_edl_line_def Let_def cong: option.case_cong)

lemma parse_comma_shape:
  assumes "strip line = p0 @ ord CHR '','' # p1 @ ord CHR '','' # p2"
    and "ord CHR '','' \<notin> set p1" and "ord CHR '','' \<notin> set p2"
    and "\<not> startswith (strip line) (ustr ''#'')"
  shows "parse_edl_line decimal line =
    (case py_float decimal p1 of
       None \<Rightarrow> warn_invalid (strip line)
     | Some s \<Rightarrow>
         (case py_float decimal p2 of
            None \<Rightarrow> warn_invalid (strip line)
          | Some l \<Rightarrow> (Some \<lparr>path = strip p0, start = s, length_sec = l\<rparr>, [])))"
proof -
  have r: "rsplit (ord CHR '','') 2 (strip line) = [p0, p1, p2]"
    unfolding assms(1) using assms(2,3) by (rule rsplit_two)
  have ne: "strip line \<noteq> []" using assms(1) by simp
  show ?thesis by (rule parse_comma[OF ne assms(4) r])
qed

lemma parse_fallback:
  assumes "strip line \<noteq> []" "\<not> startswith (strip line) (ustr ''#'')"
    and "length (rsplit (ord CHR '','') 2 (strip line)) \<noteq> 3"
    and "split_ws (strip line) = toks"
  shows "parse_edl_line decimal line =
    (if length toks < 3 then (None, [])
     else
       (case py_float decimal (toks ! (length toks - 2)) of
          None \<Rightarrow> warn_invalid (strip line)
        | Some s \<Rightarrow>
            (case py_float decimal (toks ! (length toks - 1)) of
               None \<Rightarrow> warn_invalid (strip line)
             | Some l \<Rightarrow>
                 (Some \<lparr>path = join (ustr '' '') (take (length toks - 2) toks), start = s,
                         length_sec = l\<rparr>, []))))"
  using assms by (simp add: parse_edl_line_def Let_def cong: option.case_cong)

section \<open>Evaluating \<open>float\<close> on literals\<close>

text \<open>On ASCII text the result of \<open>float\<close> does not depend on the table of decimal
  digits: the lemmas hold for every \<open>decimal\<close>.\<close>

lemma py_float_decimalI:
  assumes "map (to_ascii decimal) s0 = a"
    and "ord CHR ''_'' \<notin> set a"
    and "rev (dropWhile c_isspace (rev (dropWhile c_isspace a))) = s"
    and "take_sign s = (neg, body)"
    and "map ascii_lower body \<noteq> ustr ''inf''" and "map ascii_lower body \<noteq> ustr ''infinity''"
    and "map ascii_lower body \<noteq> ustr ''nan''"
    and "parse_decimal body = Some (p, q)"
    and "to_double neg p q = x"
  shows "py_float decimal s0 = Some x"
  using assms by (simp add: py_float_def)

lemmas ascii_eval = to_ascii_def c_isspace_def take_sign_def ascii_lower_def
lemmas decimal_eval = parse_decimal_def parse_exponent_def is_digit_def digits_val_def
  digit_val_def Let_def
lemmas double_eval = to_double_def bitlen.simps ge_pow2_def round_half_even_def

lemma float_lit_1_0:
  "py_float decimal (ustr ''1.0'') = Some (PyFinite False 4503599627370496 (- 52))"
  by (rule py_float_decimalI[where a = "ustr ''1.0''" and s = "ustr ''1.0''" and neg = False
        and body = "ustr ''1.0''" and p = 10 and q = 10])
    (simp_all add: ascii_eval decimal_eval double_eval)

lemma float_lit_sp_1_0:
  "py_float decimal (ustr '' 1.0'') = Some (PyFinite False 4503599627370496 (- 52))"
  by (rule py_float_decimalI[where a = "ustr '' 1.0''" and s = "ustr ''1.0''" and neg = False
        and body = "ustr ''1.0''" and p = 10 and q = 10])
    (simp_all add: ascii_eval decimal_eval double_eval)

lemma float_lit_2_5:
  "py_float decimal (ustr ''2.5'') = Some (PyFinite False 5629499534213120 (- 51))"
  by (rule py_float_decimalI[where a = "ustr ''2.5''" and s = "ustr ''2.5''" and neg = False
        and body = "ustr ''2.5''" and p = 25 and q = 10])
    (simp_all add: ascii_eval decimal_eval double_eval)

lemma float_lit_sp_2_5:
  "py_float decimal (ustr '' 2.5'') = Some (PyFinite False 5629499534213120 (- 51))"
  by (rule py_float_decimalI[where a = "ustr '' 2.5''" and s = "ustr ''2.5''" and neg = False
        and body = "ustr ''2.5''" and p = 25 and q = 10])
    (simp_all add: ascii_eval decimal_eval double_eval)

lemma float_lit_sp_neg_1_0:
  "py_float decimal (ustr '' -1.0'') = Some (PyFinite True 4503599627370496 (- 52))"
  by (rule py_float_decimalI[where a = "ustr '' -1.0''" and s = "ustr ''-1.0''" and neg = True
        and body = "ustr ''1.0''" and p = 10 and q = 10])
    (simp_all add: ascii_eval decimal_eval double_eval)

lemma float_lit_sp_1_5:
  "py_float decimal (ustr '' 1.5'') = Some (PyFinite False 6755399441055744 (- 52))"
  by (rule py_float_decimalI[where a = "ustr '' 1.5''" and s = "ustr ''1.5''" and neg = False
        and body = "ustr ''1.5''" and p = 15 and q = 10])
    (simp_all add: ascii_eval decimal_eval double_eval)

lemma float_lit_sp_2_25:
  "py_float decimal (ustr '' 2.25'') = Some (PyFinite False 5066549580791808 (- 51))"
  by (rule py_float_decimalI[where a = "ustr '' 2.25''" and s = "ustr ''2.25''" and neg = False
        and body = "ustr ''2.25''" and p = 225 and q = 100])
    (simp_all add: ascii_eval decimal_eval double_eval)

lemma float_lit_sp_inf: "py_float decimal (ustr '' inf'') = Some (PyInf False)"
  by (simp add: py_float_def ascii_eval)

lemma float_lit_sp_nan: "py_float decimal (ustr '' nan'') = Some PyNaN"
  by (simp add: py_float_def ascii_eval)

lemma float_lit_sp_b: "py_float decimal (ustr '' b'') = None"
  by (simp add: py_float_def ascii_eval decimal_eval)

lemma float_lit_sp_c: "py_float decimal (ustr '' c'') = None"
  by (simp add: py_float_def ascii_eval decimal_eval)

lemma set_first_seen [simp]: "set (first_seen xs) = set xs"
  by (induction xs) auto

lemma distinct_first_seen [simp]: "distinct (first_seen xs)"
  by (induction xs) auto

lemma length_first_seen: "length (first_seen xs) = card (set xs)"
  using distinct_card[OF distinct_first_seen, of xs] by simp

lemma first_seen_snoc:
  "first_seen (xs @ [x]) = (if x \<in> set xs then first_seen xs else first_seen xs @ [x])"
  by (induction xs) auto

lemma index_of_less: "x \<in> set ys \<Longrightarrow> index_of ys x < length ys"
  by (induction ys) auto

lemma nth_index_of: "x \<in> set ys \<Longrightarrow> ys ! index_of ys x = x"
  by (induction ys) auto

lemma index_of_nth: "distinct ys \<Longrightarrow> i < length ys \<Longrightarrow> index_of ys (ys ! i) = i"
proof (induction ys arbitrary: i)
  case Nil
  then show ?case by simp
next
  case (Cons y ys)
  then show ?case by (cases i) auto
qed

lemma map_fst_registry [simp]: "map fst (registry ps) = first_seen ps"
  by (simp add: registry_def)

lemma length_registry [simp]: "length (registry ps) = length (first_seen ps)"
  by (simp add: registry_def)

lemma fst_set_registry [simp]: "fst ` set (registry ps) = set ps"
proof -
  have "set (map fst (registry ps)) = set ps" by (simp only: map_fst_registry set_first_seen)
  then show ?thesis by (simp only: set_map)
qed

lemma registry_snoc:
  "registry (ps @ [p]) =
     (if p \<in> set ps then registry ps
      else registry ps @ [(p, producer_id (length (registry ps)))])"
  by (simp add: registry_def first_seen_snoc)

lemma map_of_registry:
  assumes "p \<in> set ps"
  shows "map_of (registry ps) p = Some (producer_id (index_of (first_seen ps) p))"
proof -
  let ?ks = "first_seen ps"
  let ?i = "index_of ?ks p"
  have i: "?i < length ?ks" using assms by (simp add: index_of_less)
  have k: "?ks ! ?i = p" using assms by (simp add: nth_index_of)
  have "map_of (zip ?ks (map producer_id [0..<length ?ks])) (?ks ! ?i) =
        Some (map producer_id [0..<length ?ks] ! ?i)"
    by (rule map_of_zip_nth) (use i in simp_all)
  then show ?thesis using i k by (simp add: registry_def)
qed

section \<open>The reading loop\<close>

lemma scan_step_cuts:
  "cuts (scan_step decimal st l) =
     cuts st @ (case fst (parse_edl_line decimal l) of None \<Rightarrow> [] | Some d \<Rightarrow> [d])"
  by (cases "parse_edl_line decimal l") (simp add: scan_step_def Let_def split: option.splits)

lemma scan_step_printed: "printed (scan_step decimal st l) = printed st @ snd (parse_edl_line decimal l)"
  by (cases "parse_edl_line decimal l") (simp add: scan_step_def Let_def split: option.splits)

lemma scan_step_ok: "scan_ok st \<Longrightarrow> scan_ok (scan_step decimal st l)"
  by (cases "parse_edl_line decimal l")
    (auto simp: scan_step_def scan_ok_def Let_def registry_snoc producer_id_def
       split: option.splits)

lemma foldl_scan_cuts: "cuts (foldl (scan_step decimal) st ls) = cuts st @ accepted_cuts decimal ls"
  by (induction ls arbitrary: st) (simp_all add: scan_step_cuts split: option.splits)

lemma foldl_scan_printed:
  "printed (foldl (scan_step decimal) st ls) = printed st @ concat (map (\<lambda>l. snd (parse_edl_line decimal l)) ls)"
  by (induction ls arbitrary: st) (simp_all add: scan_step_printed)

lemma foldl_scan_ok: "scan_ok st \<Longrightarrow> scan_ok (foldl (scan_step decimal) st ls)"
  by (induction ls arbitrary: st) (simp_all add: scan_step_ok)

lemma cuts_read_edl: "cuts (read_edl decimal ls) = accepted_cuts decimal ls"
  by (simp add: read_edl_def foldl_scan_cuts scan_init_def)

lemma printed_read_edl:
  "printed (read_edl decimal ls) = concat (map (\<lambda>l. snd (parse_edl_line decimal l)) ls)"
  by (simp add: read_edl_def foldl_scan_printed scan_init_def)

lemma unique_paths_read_edl:
  "unique_paths (read_edl decimal ls) = registry (map path (accepted_cuts decimal ls))"
proof -
  have "scan_ok scan_init" by (simp add: scan_ok_def scan_init_def registry_def)
  then have "scan_ok (read_edl decimal ls)" unfolding read_edl_def by (rule foldl_scan_ok)
  then show ?thesis by (simp add: scan_ok_def cuts_read_edl)
qed

lemma producer_counter_read_edl:
  "producer_counter (read_edl decimal ls) = card (path ` set (accepted_cuts decimal ls))"
proof -
  have "scan_ok scan_init" by (simp add: scan_ok_def scan_init_def registry_def)
  then have "scan_ok (read_edl decimal ls)" unfolding read_edl_def by (rule foldl_scan_ok)
  then show ?thesis by (simp add: scan_ok_def cuts_read_edl length_first_seen)
qed

section \<open>The tree\<close>

lemma foldl_append_child:
  "foldl (\<lambda>r kv. append_child (f kv) r) r0 kvs =
     Element (etag r0) (eattrib r0) (etext r0) (echildren r0 @ map f kvs)"
  by (induction kvs arbitrary: r0) (simp_all add: append_child_def)

lemma add_entries_ok:
  assumes "\<And>c. c \<in> set cs \<Longrightarrow> map_of up (path c) = Some (g c)"
  shows "add_entries up cs pl =
     Inr (Element (etag pl) (eattrib pl) (etext pl)
            (echildren pl @ map (\<lambda>c. entry_element (g c) c) cs))"
  using assms by (induction cs arbitrary: pl) (simp_all add: append_child_def)

lemma build_document_registry:
  "build_document cs (registry (map path cs)) = Inr (document_of cs)"
proof -
  have e: "add_entries (registry (map path cs)) cs (set_attr (ustr ''id'') (ustr ''playlist0'') (new_element (ustr ''playlist''))) =
     Inr (Element (ustr ''playlist'') [((ustr ''id''), (ustr ''playlist0''))] None
        (map (\<lambda>c. entry_element (producer_id (index_of (first_seen (map path cs)) (path c))) c) cs))"
    by (subst add_entries_ok[where g = "\<lambda>c. producer_id (index_of (first_seen (map path cs)) (path c))"])
       (simp_all add: map_of_registry set_attr_def new_element_def)
  have f: "foldl (\<lambda>r kv. append_child (producer_element kv) r) mlt_root (registry (map path cs)) =
     Element (ustr ''mlt'') [((ustr ''version''), (ustr ''7.0'')), ((ustr ''title''), (ustr ''EDL Import'')), ((ustr ''producer''), (ustr ''maintractor''))]
       None (map producer_element (registry (map path cs)))"
    by (simp add: foldl_append_child mlt_root_def set_attr_def new_element_def)
  have t: "tractor_element = Element (ustr ''tractor'') [((ustr ''id''), (ustr ''maintractor''))] None
           [Element (ustr ''track'') [((ustr ''producer''), (ustr ''playlist0''))] None []]"
    by (simp add: tractor_element_def set_attr_def new_element_def append_child_def)
  show ?thesis
    unfolding build_document_def Let_def f e
    by (simp add: t document_of_def append_child_def)
qed

lemma build_document_read_edl:
  "build_document (cuts (read_edl decimal ls)) (unique_paths (read_edl decimal ls)) =
     Inr (document_of (accepted_cuts decimal ls))"
  by (simp add: cuts_read_edl unique_paths_read_edl build_document_registry)

section \<open>Decimal numerals\<close>

lemma is_digit_digit_char: "d < 10 \<Longrightarrow> is_digit (digit_char d)"
  by (simp add: is_digit_def digit_char_def)

lemma digit_char_inj: "digit_char a = digit_char b \<Longrightarrow> a = b"
  by (simp add: digit_char_def)

lemma str_nat_digits: "list_all is_digit (str_nat n)"
proof (induction n rule: str_nat.induct)
  case (1 n)
  show ?case
  proof (cases "n < 10")
    case True
    then have "str_nat n = [digit_char n]" by (subst str_nat.simps) simp
    with True show ?thesis by (simp add: is_digit_digit_char)
  next
    case False
    then have "str_nat n = str_nat (n div 10) @ [digit_char (n mod 10)]"
      by (subst str_nat.simps) simp
    with 1[OF False] show ?thesis by (simp add: is_digit_digit_char)
  qed
qed

lemma str_nat_nonempty: "str_nat n \<noteq> []"
  by (subst str_nat.simps) simp

lemma str_nat_inj: "str_nat m = str_nat n \<Longrightarrow> m = n"
proof (induction m arbitrary: n rule: str_nat.induct)
  case (1 m)
  have sm: "str_nat m =
      (if m < 10 then [digit_char m] else str_nat (m div 10) @ [digit_char (m mod 10)])"
    by (rule str_nat.simps)
  have sn: "str_nat n =
      (if n < 10 then [digit_char n] else str_nat (n div 10) @ [digit_char (n mod 10)])"
    by (rule str_nat.simps)
  show ?case
  proof (cases "m < 10")
    case m: True
    show ?thesis
    proof (cases "n < 10")
      case True
      with m 1(2) sm sn show ?thesis by (simp add: digit_char_def)
    next
      case False
      with m 1(2) sm sn str_nat_nonempty[of "n div 10"] show ?thesis
        by (simp add: Cons_eq_append_conv)
    qed
  next
    case m: False
    show ?thesis
    proof (cases "n < 10")
      case True
      with m 1(2) sm sn str_nat_nonempty[of "m div 10"] show ?thesis
        by (simp add: append_eq_Cons_conv)
    next
      case False
      with m 1(2) sm sn have e: "str_nat (m div 10) = str_nat (n div 10)"
        and d: "digit_char (m mod 10) = digit_char (n mod 10)"
        by simp_all
      from 1(1)[OF m e] have "m div 10 = n div 10" .
      moreover from d have "m mod 10 = n mod 10" by (rule digit_char_inj)
      ultimately show ?thesis by (metis div_mult_mod_eq)
    qed
  qed
qed

lemma producer_id_inj: "inj producer_id"
  by (rule injI) (simp add: producer_id_def str_nat_inj)

lemma distinct_producer_ids: "distinct (map producer_id [0..<n])"
  by (simp add: distinct_map inj_on_subset[OF producer_id_inj])

section \<open>The three-decimal format\<close>

lemma fixed3_digits:
  assumes "ds \<noteq> []" "list_all is_digit ds" "length fr = 3" "list_all is_digit fr"
  shows "fixed3 (ds @ ord CHR ''.'' # fr)" and "fixed3 (ord CHR ''-'' # ds @ ord CHR ''.'' # fr)"
proof -
  have nd: "\<not> is_digit (ord CHR ''.'')" by (simp add: is_digit_def)
  have all: "\<And>x. x \<in> set ds \<Longrightarrow> is_digit x" using assms(2) by (simp add: list_all_iff)
  have t: "takeWhile is_digit (ds @ ord CHR ''.'' # fr) = ds"
    using takeWhile_append2[of ds is_digit "ord CHR ''.'' # fr"] all nd by simp
  have d: "dropWhile is_digit (ds @ ord CHR ''.'' # fr) = ord CHR ''.'' # fr"
    using dropWhile_append2[of ds is_digit "ord CHR ''.'' # fr"] all nd by simp
  show "fixed3 (ord CHR ''-'' # ds @ ord CHR ''.'' # fr)"
    using assms t d by (simp add: fixed3_def)
  obtain c cs where ds: "ds = c # cs" using assms(1) by (cases ds) auto
  with assms(2) have c: "c \<noteq> ord CHR ''-''" by (auto simp: is_digit_def)
  have "fixed3 ((c # cs) @ ord CHR ''.'' # fr)"
    using assms t d c unfolding ds by (simp add: fixed3_def)
  then show "fixed3 (ds @ ord CHR ''.'' # fr)" by (simp add: ds)
qed

lemma fixed3_format_finite: "fixed3 (format_3f (PyFinite s m e))"
proof -
  have p: "length (pad3 k) = 3 \<and> list_all is_digit (pad3 k)" for k
    by (simp add: pad3_def is_digit_digit_char)
  show ?thesis
    using fixed3_digits[OF str_nat_nonempty str_nat_digits conjunct1[OF p] conjunct2[OF p]]
    by (simp add: format_3f_def Let_def)
qed

lemma format_not_finite:
  "\<not> is_finite x \<Longrightarrow> format_3f x \<in> {ustr ''inf'', ustr ''-inf'', ustr ''nan''}"
  by (cases x) (simp_all add: is_finite_def format_3f_def)

lemma not_fixed3_inf_nan:
  "\<not> fixed3 (ustr ''inf'')" "\<not> fixed3 (ustr ''-inf'')" "\<not> fixed3 (ustr ''nan'')"
  by (simp_all add: fixed3_def is_digit_def)

section \<open>The sign of a converted number\<close>

lemma strip_underscores_subset:
  "strip_underscores prev s = Some t \<Longrightarrow> set t \<subseteq> set s"
proof (induction s arbitrary: prev t)
  case Nil
  then show ?case by (simp split: if_splits)
next
  case (Cons c cs)
  then show ?case by (fastforce split: if_splits)
qed

lemma take_sign_no_minus: "ord CHR ''-'' \<notin> set s \<Longrightarrow> fst (take_sign s) = False"
  by (cases s) (auto simp: take_sign_def)

lemma to_double_sign: "to_double False p q \<noteq> PyNaN \<and> py_ge0 (to_double False p q)"
  by (simp add: to_double_def py_ge0_def Let_def)

lemma to_ascii_no_minus: "c \<noteq> ord CHR ''-'' \<Longrightarrow> to_ascii decimal c \<noteq> ord CHR ''-''"
  by (auto simp: to_ascii_def split: option.splits)

lemma py_float_no_minus:
  assumes "py_float decimal s = Some x" and "ord CHR ''-'' \<notin> set s" and "x \<noteq> PyNaN"
  shows "py_ge0 x"
proof -
  let ?a = "map (to_ascii decimal) s"
  have na: "ord CHR ''-'' \<notin> set ?a"
    using assms(2) to_ascii_no_minus[of _ decimal] by (induction s) auto
  obtain s1 where s1: "(if ord CHR ''_'' \<in> set ?a then strip_underscores 0 ?a else Some ?a) = Some s1"
    using assms(1) by (auto simp: py_float_def Let_def split: option.splits)
  have sub: "set s1 \<subseteq> set ?a"
  proof (cases "ord CHR ''_'' \<in> set ?a")
    case True
    with s1 have "strip_underscores 0 ?a = Some s1" by simp
    then show ?thesis by (rule strip_underscores_subset)
  next
    case False
    with s1 show ?thesis by simp
  qed
  let ?t = "rev (dropWhile c_isspace (rev (dropWhile c_isspace s1)))"
  have "set ?t \<subseteq> set s1"
  proof
    fix c
    assume "c \<in> set ?t"
    then have "c \<in> set (dropWhile c_isspace (rev (dropWhile c_isspace s1)))" by simp
    then have "c \<in> set (rev (dropWhile c_isspace s1))" by (rule set_dropWhileD)
    then have "c \<in> set (dropWhile c_isspace s1)" by simp
    then show "c \<in> set s1" by (rule set_dropWhileD)
  qed
  with sub na have nm: "ord CHR ''-'' \<notin> set ?t" by blast
  obtain neg body where ts: "take_sign ?t = (neg, body)" by (cases "take_sign ?t")
  with take_sign_no_minus[OF nm] have neg: "neg = False" by simp
  from assms(1) s1 ts neg have
    "x = PyInf False \<or> x = PyNaN \<or> (\<exists>p q. x = to_double False p q)"
    by (auto simp: py_float_def Let_def split: option.splits if_splits)
  with assms(3) show ?thesis using to_double_sign by (auto simp: py_ge0_def)
qed

section \<open>The run\<close>

lemma accepted_cuts_Nil_iff:
  "accepted_cuts decimal ls = [] \<longleftrightarrow> (\<forall>l \<in> set ls. fst (parse_edl_line decimal l) = None)"
  by (induction ls) (auto split: option.splits)

lemma accepted_cuts_mem:
  "l \<in> set ls \<Longrightarrow> fst (parse_edl_line decimal l) = Some d \<Longrightarrow> d \<in> set (accepted_cuts decimal ls)"
  by (induction ls) (auto split: option.splits)

lemma run_missing:
  assumes "files w edl_path = None"
  shows "create_kdenlive_project decimal serialize edl_path output_path w =
     (Returned, w\<lparr>stdout := stdout w @ [ustr ''Reading EDL: '' @ edl_path, ustr ''Error: EDL file not found.'']\<rparr>)"
  using assms by (simp add: create_kdenlive_project_def py_print_def)

lemma run_no_cuts:
  assumes "files w edl_path = Some content" and "accepted_cuts decimal (file_lines content) = []"
  shows "create_kdenlive_project decimal serialize edl_path output_path w =
     (Returned, w\<lparr>stdout := stdout w @ [ustr ''Reading EDL: '' @ edl_path] @
        concat (map (\<lambda>l. snd (parse_edl_line decimal l)) (file_lines content)) @
        [ustr ''Error: No valid cuts found in EDL.'']\<rparr>)"
  using assms
  by (simp add: create_kdenlive_project_def py_print_def Let_def cuts_read_edl printed_read_edl)

lemma run_cuts:
  assumes "files w edl_path = Some content" and "accepted_cuts decimal (file_lines content) \<noteq> []"
  shows "create_kdenlive_project decimal serialize edl_path output_path w =
     (case serialize (document_of (accepted_cuts decimal (file_lines content))) of
        None \<Rightarrow> (Raised XMLError, w\<lparr>stdout := stdout w @ progress_lines decimal edl_path (file_lines content)\<rparr>)
      | Some xml_str \<Rightarrow>
          (case write_error w output_path of
             Some err \<Rightarrow>
               (Returned, w\<lparr>stdout := stdout w @ progress_lines decimal edl_path (file_lines content) @
                  [ustr ''Error writing output file: '' @ err]\<rparr>)
           | None \<Rightarrow>
               (Returned, w\<lparr>files := (files w)(output_path \<mapsto> xml_str),
                  stdout := stdout w @ progress_lines decimal edl_path (file_lines content) @
                  [ustr ''Success! Project saved to: '' @ output_path]\<rparr>)))"
proof -
  have b: "build_document (accepted_cuts decimal (file_lines content)) (unique_paths (read_edl decimal (file_lines content))) =
      Inr (document_of (accepted_cuts decimal (file_lines content)))"
    by (simp add: unique_paths_read_edl build_document_registry)
  have n: "length (unique_paths (read_edl decimal (file_lines content))) =
      length (first_seen (map path (accepted_cuts decimal (file_lines content))))"
    by (simp add: unique_paths_read_edl)
  show ?thesis
    using assms
    by (simp add: create_kdenlive_project_def b n py_print_def Let_def cuts_read_edl
        printed_read_edl progress_lines_def split: option.splits)
qed

section \<open>The claims about the line parser\<close>

text \<open>
  Claim C3, as amended. A line that is not a comment and whose trimmed text is
  \<open>p0,p1,p2\<close>, with no comma in \<open>p1\<close> and \<open>p2\<close> (so \<open>p0\<close> keeps every
  comma of the path) and with \<open>float\<close> accepting \<open>p1\<close> and \<open>p2\<close>, splits from the right
  into exactly these three parts and is parsed to the record with path \<open>p0\<close> trimmed,
  start \<open>float(p1)\<close> and length \<open>float(p2)\<close>, with nothing printed.
\<close>

theorem C3_comma_line_parsed:
  assumes "strip line = p0 @ ord CHR '','' # p1 @ ord CHR '','' # p2"
    and "ord CHR '','' \<notin> set p1" and "ord CHR '','' \<notin> set p2"
    and "py_float decimal p1 = Some s" and "py_float decimal p2 = Some l"
    and "\<not> startswith (strip line) (ustr ''#'')"
  shows "rsplit (ord CHR '','') 2 (strip line) = [p0, p1, p2] \<and>
         parse_edl_line decimal line = (Some \<lparr>path = strip p0, start = s, length_sec = l\<rparr>, [])"
proof -
  have r: "rsplit (ord CHR '','') 2 (strip line) = [p0, p1, p2]"
    unfolding assms(1) using assms(2,3) by (rule rsplit_two)
  have ne: "strip line \<noteq> []" using assms(1) by simp
  show ?thesis using parse_comma[OF ne assms(6) r, of decimal] r assms(4,5) by simp
qed

text \<open>
  The theorem of C3 on the line \<open>/a, b/clip.mp4, 1.0, 2.5\<close> of the specification,
  whatever the table of decimal digits.
\<close>

theorem C3_comma_line_parsed_witness:
  "\<forall>decimal. parse_edl_line decimal (ustr ''/a, b/clip.mp4, 1.0, 2.5'') =
     (Some \<lparr>path = ustr ''/a, b/clip.mp4'', start = PyFinite False 4503599627370496 (- 52),
             length_sec = PyFinite False 5629499534213120 (- 51)\<rparr>, [])"
proof
  fix decimal
  have s: "strip (ustr ''/a, b/clip.mp4, 1.0, 2.5'') =
      ustr ''/a, b/clip.mp4'' @ ord CHR '','' # ustr '' 1.0'' @ ord CHR '','' # ustr '' 2.5''"
    by (subst strip_fixed) (simp_all add: py_isspace_def)
  have p: "strip (ustr ''/a, b/clip.mp4'') = ustr ''/a, b/clip.mp4''"
    by (subst strip_fixed) (simp_all add: py_isspace_def)
  have c: "\<not> startswith (strip (ustr ''/a, b/clip.mp4, 1.0, 2.5'')) (ustr ''#'')"
    unfolding s by (simp add: startswith_def)
  show "parse_edl_line decimal (ustr ''/a, b/clip.mp4, 1.0, 2.5'') =
     (Some \<lparr>path = ustr ''/a, b/clip.mp4'', start = PyFinite False 4503599627370496 (- 52),
             length_sec = PyFinite False 5629499534213120 (- 51)\<rparr>, [])"
    using C3_comma_line_parsed[OF s _ _ float_lit_sp_1_0 float_lit_sp_2_5 c, of decimal] p
    by simp
qed

text \<open>
  C3 as stated fails on a comment line: \<open>#a, 1.0, 2.5\<close> splits into three parts with
  numeric fields, and the parser returns no record.
\<close>

theorem C3_comment_counterexample:
  "\<forall>decimal.
     rsplit (ord CHR '','') 2 (strip (ustr ''#a, 1.0, 2.5'')) =
       [ustr ''#a'', ustr '' 1.0'', ustr '' 2.5''] \<and>
     py_float decimal (ustr '' 1.0'') = Some (PyFinite False 4503599627370496 (- 52)) \<and>
     py_float decimal (ustr '' 2.5'') = Some (PyFinite False 5629499534213120 (- 51)) \<and>
     parse_edl_line decimal (ustr ''#a, 1.0, 2.5'') = (None, [])"
proof
  fix decimal
  have s: "strip (ustr ''#a, 1.0, 2.5'') =
      ustr ''#a'' @ ord CHR '','' # ustr '' 1.0'' @ ord CHR '','' # ustr '' 2.5''"
    by (subst strip_fixed) (simp_all add: py_isspace_def)
  have r: "rsplit (ord CHR '','') 2 (strip (ustr ''#a, 1.0, 2.5'')) =
      [ustr ''#a'', ustr '' 1.0'', ustr '' 2.5'']"
    unfolding s by (rule rsplit_two) simp_all
  have "startswith (strip (ustr ''#a, 1.0, 2.5'')) (ustr ''#'')"
    unfolding s by (simp add: startswith_def)
  then have "parse_edl_line decimal (ustr ''#a, 1.0, 2.5'') = (None, [])"
    by (simp add: parse_skip)
  then show "rsplit (ord CHR '','') 2 (strip (ustr ''#a, 1.0, 2.5'')) =
       [ustr ''#a'', ustr '' 1.0'', ustr '' 2.5''] \<and>
     py_float decimal (ustr '' 1.0'') = Some (PyFinite False 4503599627370496 (- 52)) \<and>
     py_float decimal (ustr '' 2.5'') = Some (PyFinite False 5629499534213120 (- 51)) \<and>
     parse_edl_line decimal (ustr ''#a, 1.0, 2.5'') = (None, [])"
    using r float_lit_sp_1_0[of decimal] float_lit_sp_2_5[of decimal] by simp
qed

text \<open>
  Claim C4. A line whose comma split does not give three parts and whose whitespace
  split gives fewer than three tokens returns \<open>None\<close> through the early \<open>return\<close> of
  line 24 of the source, inside the \<open>try\<close>: the handler that prints the warning is
  never reached, and nothing is printed.
\<close>

theorem C4_too_few_tokens_silent:
  assumes "length (rsplit (ord CHR '','') 2 (strip line)) \<noteq> 3"
    and "length (split_ws (strip line)) < 3"
  shows "parse_edl_line decimal line = (None, [])"
  using assms by (simp add: parse_edl_line_def Let_def)

text \<open>
  The theorem of C4 on the line \<open>hello\<close>, which is neither blank nor a comment.
\<close>

theorem C4_too_few_tokens_silent_witness:
  "\<forall>decimal.
     length (rsplit (ord CHR '','') 2 (strip (ustr ''hello''))) = 1 \<and>
     split_ws (strip (ustr ''hello'')) = [ustr ''hello''] \<and>
     strip (ustr ''hello'') \<noteq> [] \<and> \<not> startswith (strip (ustr ''hello'')) (ustr ''#'') \<and>
     parse_edl_line decimal (ustr ''hello'') = (None, [])"
proof
  fix decimal
  have s: "strip (ustr ''hello'') = ustr ''hello''"
    by (subst strip_fixed) (simp_all add: py_isspace_def)
  have r: "length (rsplit (ord CHR '','') 2 (strip (ustr ''hello''))) = 1"
    unfolding s by (subst rsplit_no_sep) simp_all
  have w: "split_ws (strip (ustr ''hello'')) = [ustr ''hello'']"
    unfolding s by (simp add: split_ws_def py_isspace_def)
  have "parse_edl_line decimal (ustr ''hello'') = (None, [])"
    using r w by (intro C4_too_few_tokens_silent) simp_all
  then show "length (rsplit (ord CHR '','') 2 (strip (ustr ''hello''))) = 1 \<and>
     split_ws (strip (ustr ''hello'')) = [ustr ''hello''] \<and>
     strip (ustr ''hello'') \<noteq> [] \<and> \<not> startswith (strip (ustr ''hello'')) (ustr ''#'') \<and>
     parse_edl_line decimal (ustr ''hello'') = (None, [])"
    using s r w by (simp add: startswith_def)
qed

text \<open>
  Claim C5, as amended. A line that is not a comment and whose trimmed text is
  \<open>p0,p1,p2\<close> with no comma in \<open>p1\<close> and \<open>p2\<close>, where \<open>float\<close> rejects \<open>p1\<close> or \<open>p2\<close>,
  gives no record and exactly one printed line, the warning with the trimmed text. The
  result does not depend on the whitespace split of the line.
\<close>

theorem C5_non_numeric_invalid:
  assumes "strip line = p0 @ ord CHR '','' # p1 @ ord CHR '','' # p2"
    and "ord CHR '','' \<notin> set p1" and "ord CHR '','' \<notin> set p2"
    and "py_float decimal p1 = None \<or> py_float decimal p2 = None"
    and "\<not> startswith (strip line) (ustr ''#'')"
  shows "parse_edl_line decimal line =
           (None, [ustr ''[Warn] Skipping invalid line format: '' @ strip line])"
proof -
  have r: "rsplit (ord CHR '','') 2 (strip line) = [p0, p1, p2]"
    unfolding assms(1) using assms(2,3) by (rule rsplit_two)
  have ne: "strip line \<noteq> []" using assms(1) by simp
  show ?thesis using parse_comma[OF ne assms(5) r, of decimal] assms(4)
    by (auto simp: warn_invalid_def split: option.splits)
qed

text \<open>
  The theorem of C5 on \<open>a, b, c 1.0 2.5\<close>: its whitespace split has five tokens, the
  last two numeric, so the fallback would have produced a record; the line is invalid.
\<close>

theorem C5_non_numeric_invalid_witness:
  "\<forall>decimal.
     split_ws (ustr ''a, b, c 1.0 2.5'') =
       [ustr ''a,'', ustr ''b,'', ustr ''c'', ustr ''1.0'', ustr ''2.5''] \<and>
     py_float decimal (ustr ''1.0'') = Some (PyFinite False 4503599627370496 (- 52)) \<and>
     py_float decimal (ustr ''2.5'') = Some (PyFinite False 5629499534213120 (- 51)) \<and>
     parse_edl_line decimal (ustr ''a, b, c 1.0 2.5'') =
       (None, [ustr ''[Warn] Skipping invalid line format: a, b, c 1.0 2.5''])"
proof
  fix decimal
  have s: "strip (ustr ''a, b, c 1.0 2.5'') =
      ustr ''a'' @ ord CHR '','' # ustr '' b'' @ ord CHR '','' # ustr '' c 1.0 2.5''"
    by (subst strip_fixed) (simp_all add: py_isspace_def)
  have s': "strip (ustr ''a, b, c 1.0 2.5'') = ustr ''a, b, c 1.0 2.5''"
    by (subst strip_fixed) (simp_all add: py_isspace_def)
  have c: "\<not> startswith (strip (ustr ''a, b, c 1.0 2.5'')) (ustr ''#'')"
    unfolding s by (simp add: startswith_def)
  have w: "split_ws (ustr ''a, b, c 1.0 2.5'') =
      [ustr ''a,'', ustr ''b,'', ustr ''c'', ustr ''1.0'', ustr ''2.5'']"
    by (simp add: split_ws_def py_isspace_def)
  have n: "py_float decimal (ustr '' b'') = None \<or> py_float decimal (ustr '' c 1.0 2.5'') = None"
    using float_lit_sp_b by simp
  have "parse_edl_line decimal (ustr ''a, b, c 1.0 2.5'') =
     (None, [ustr ''[Warn] Skipping invalid line format: '' @ strip (ustr ''a, b, c 1.0 2.5'')])"
    using C5_non_numeric_invalid[OF s _ _ n c] by simp
  then show "split_ws (ustr ''a, b, c 1.0 2.5'') =
       [ustr ''a,'', ustr ''b,'', ustr ''c'', ustr ''1.0'', ustr ''2.5''] \<and>
     py_float decimal (ustr ''1.0'') = Some (PyFinite False 4503599627370496 (- 52)) \<and>
     py_float decimal (ustr ''2.5'') = Some (PyFinite False 5629499534213120 (- 51)) \<and>
     parse_edl_line decimal (ustr ''a, b, c 1.0 2.5'') =
       (None, [ustr ''[Warn] Skipping invalid line format: a, b, c 1.0 2.5''])"
    using s' w float_lit_1_0[of decimal] float_lit_2_5[of decimal] by simp
qed

text \<open>
  C5 as stated fails in two ways. On a comment line: \<open># a, b, c\<close> splits into three
  parts with non-numeric fields, and no warning is printed. And on fields that are not
  decimal numerals but that \<open>float\<close> accepts: \<open>a, nan, inf\<close> has the fields \<open>nan\<close> and
  \<open>inf\<close>, which no decimal numeral spells, and the parser returns a record and prints
  nothing. The code converts with \<open>float\<close> and checks nothing else.
\<close>

theorem C5_comment_and_nan_counterexample:
  "\<forall>decimal.
     rsplit (ord CHR '','') 2 (strip (ustr ''# a, b, c'')) =
       [ustr ''# a'', ustr '' b'', ustr '' c''] \<and>
     py_float decimal (ustr '' b'') = None \<and> py_float decimal (ustr '' c'') = None \<and>
     parse_edl_line decimal (ustr ''# a, b, c'') = (None, []) \<and>
     rsplit (ord CHR '','') 2 (strip (ustr ''a, nan, inf'')) =
       [ustr ''a'', ustr '' nan'', ustr '' inf''] \<and>
     parse_decimal (ustr ''nan'') = None \<and> parse_decimal (ustr ''inf'') = None \<and>
     parse_edl_line decimal (ustr ''a, nan, inf'') =
       (Some \<lparr>path = ustr ''a'', start = PyNaN, length_sec = PyInf False\<rparr>, [])"
proof
  fix decimal
  have s: "strip (ustr ''# a, b, c'') =
      ustr ''# a'' @ ord CHR '','' # ustr '' b'' @ ord CHR '','' # ustr '' c''"
    by (subst strip_fixed) (simp_all add: py_isspace_def)
  have r: "rsplit (ord CHR '','') 2 (strip (ustr ''# a, b, c'')) =
      [ustr ''# a'', ustr '' b'', ustr '' c'']"
    unfolding s by (rule rsplit_two) simp_all
  have "startswith (strip (ustr ''# a, b, c'')) (ustr ''#'')"
    unfolding s by (simp add: startswith_def)
  then have p: "parse_edl_line decimal (ustr ''# a, b, c'') = (None, [])"
    by (simp add: parse_skip)
  have s2: "strip (ustr ''a, nan, inf'') =
      ustr ''a'' @ ord CHR '','' # ustr '' nan'' @ ord CHR '','' # ustr '' inf''"
    by (subst strip_fixed) (simp_all add: py_isspace_def)
  have r2: "rsplit (ord CHR '','') 2 (strip (ustr ''a, nan, inf'')) =
      [ustr ''a'', ustr '' nan'', ustr '' inf'']"
    unfolding s2 by (rule rsplit_two) simp_all
  have c2: "\<not> startswith (strip (ustr ''a, nan, inf'')) (ustr ''#'')"
    unfolding s2 by (simp add: startswith_def)
  have sa: "strip (ustr ''a'') = ustr ''a''"
    by (subst strip_fixed) (simp_all add: py_isspace_def)
  have p2: "parse_edl_line decimal (ustr ''a, nan, inf'') =
       (Some \<lparr>path = ustr ''a'', start = PyNaN, length_sec = PyInf False\<rparr>, [])"
    using float_lit_sp_nan[of decimal] float_lit_sp_inf[of decimal] sa
      parse_comma_shape[OF s2 _ _ c2, of decimal]
    by (simp cong: option.case_cong)
  have d: "parse_decimal (ustr ''nan'') = None" "parse_decimal (ustr ''inf'') = None"
    by (simp_all add: decimal_eval)
  show "rsplit (ord CHR '','') 2 (strip (ustr ''# a, b, c'')) =
       [ustr ''# a'', ustr '' b'', ustr '' c''] \<and>
     py_float decimal (ustr '' b'') = None \<and> py_float decimal (ustr '' c'') = None \<and>
     parse_edl_line decimal (ustr ''# a, b, c'') = (None, []) \<and>
     rsplit (ord CHR '','') 2 (strip (ustr ''a, nan, inf'')) =
       [ustr ''a'', ustr '' nan'', ustr '' inf''] \<and>
     parse_decimal (ustr ''nan'') = None \<and> parse_decimal (ustr ''inf'') = None \<and>
     parse_edl_line decimal (ustr ''a, nan, inf'') =
       (Some \<lparr>path = ustr ''a'', start = PyNaN, length_sec = PyInf False\<rparr>, [])"
    using r p r2 p2 d float_lit_sp_b[of decimal] float_lit_sp_c[of decimal] by simp
qed

text \<open>
  Claim C6, as amended. A line that is not a comment, whose comma split does not give
  three parts and whose whitespace tokens are \<open>pre\<close> followed by two tokens that
  \<open>float\<close> accepts, with \<open>pre\<close> not empty, is parsed to the record whose path is \<open>pre\<close>
  joined with single spaces and whose start and length are the two numbers.
\<close>

theorem C6_whitespace_fallback:
  assumes "length (rsplit (ord CHR '','') 2 (strip line)) \<noteq> 3"
    and "split_ws (strip line) = pre @ [a, b]" and "pre \<noteq> []"
    and "py_float decimal a = Some s" and "py_float decimal b = Some l"
    and "\<not> startswith (strip line) (ustr ''#'')"
  shows "parse_edl_line decimal line =
           (Some \<lparr>path = join (ustr '' '') pre, start = s, length_sec = l\<rparr>, [])"
proof -
  have ne: "strip line \<noteq> []" using assms(2) by (auto simp: split_ws_def)
  have n: "\<not> length (pre @ [a, b]) < 3" using assms(3) by (cases pre) auto
  have i2: "(pre @ [a, b]) ! (length (pre @ [a, b]) - 2) = a" by (simp add: nth_append)
  have i1: "(pre @ [a, b]) ! (length (pre @ [a, b]) - 1) = b" by (simp add: nth_append)
  have tk: "take (length (pre @ [a, b]) - 2) (pre @ [a, b]) = pre" by simp
  show ?thesis
    unfolding parse_fallback[OF ne assms(6) assms(1) assms(2)]
    by (simp only: n i2 i1 tk if_False assms(4,5) option.case)
qed

text \<open>
  The theorem of C6 on the line \<open>my clip.mp4 1.0 2.5\<close> of the specification.
\<close>

theorem C6_whitespace_fallback_witness:
  "\<forall>decimal. parse_edl_line decimal (ustr ''my clip.mp4 1.0 2.5'') =
     (Some \<lparr>path = ustr ''my clip.mp4'', start = PyFinite False 4503599627370496 (- 52),
             length_sec = PyFinite False 5629499534213120 (- 51)\<rparr>, [])"
proof
  fix decimal
  have s: "strip (ustr ''my clip.mp4 1.0 2.5'') = ustr ''my clip.mp4 1.0 2.5''"
    by (subst strip_fixed) (simp_all add: py_isspace_def)
  have r: "length (rsplit (ord CHR '','') 2 (strip (ustr ''my clip.mp4 1.0 2.5''))) \<noteq> 3"
    unfolding s by (subst rsplit_no_sep) simp_all
  have w: "split_ws (strip (ustr ''my clip.mp4 1.0 2.5'')) =
      [ustr ''my'', ustr ''clip.mp4''] @ [ustr ''1.0'', ustr ''2.5'']"
    unfolding s by (simp add: split_ws_def py_isspace_def)
  have c: "\<not> startswith (strip (ustr ''my clip.mp4 1.0 2.5'')) (ustr ''#'')"
    unfolding s by (simp add: startswith_def)
  show "parse_edl_line decimal (ustr ''my clip.mp4 1.0 2.5'') =
     (Some \<lparr>path = ustr ''my clip.mp4'', start = PyFinite False 4503599627370496 (- 52),
             length_sec = PyFinite False 5629499534213120 (- 51)\<rparr>, [])"
    using C6_whitespace_fallback[OF r w _ float_lit_1_0 float_lit_2_5 c, of decimal] by simp
qed

text \<open>
  C6 as stated fails on a comment line: \<open># a 1.0 2.5\<close> has no comma and four
  tokens, the last two numeric, and the parser returns no record.
\<close>

theorem C6_comment_counterexample:
  "\<forall>decimal.
     length (rsplit (ord CHR '','') 2 (strip (ustr ''# a 1.0 2.5''))) = 1 \<and>
     split_ws (strip (ustr ''# a 1.0 2.5'')) = [ustr ''#'', ustr ''a'', ustr ''1.0'', ustr ''2.5''] \<and>
     py_float decimal (ustr ''1.0'') = Some (PyFinite False 4503599627370496 (- 52)) \<and>
     py_float decimal (ustr ''2.5'') = Some (PyFinite False 5629499534213120 (- 51)) \<and>
     parse_edl_line decimal (ustr ''# a 1.0 2.5'') = (None, [])"
proof
  fix decimal
  have s: "strip (ustr ''# a 1.0 2.5'') = ustr ''# a 1.0 2.5''"
    by (subst strip_fixed) (simp_all add: py_isspace_def)
  have r: "length (rsplit (ord CHR '','') 2 (strip (ustr ''# a 1.0 2.5''))) = 1"
    unfolding s by (subst rsplit_no_sep) simp_all
  have w: "split_ws (strip (ustr ''# a 1.0 2.5'')) =
      [ustr ''#'', ustr ''a'', ustr ''1.0'', ustr ''2.5'']"
    unfolding s by (simp add: split_ws_def py_isspace_def)
  have "startswith (strip (ustr ''# a 1.0 2.5'')) (ustr ''#'')"
    unfolding s by (simp add: startswith_def)
  then have "parse_edl_line decimal (ustr ''# a 1.0 2.5'') = (None, [])"
    by (simp add: parse_skip)
  then show "length (rsplit (ord CHR '','') 2 (strip (ustr ''# a 1.0 2.5''))) = 1 \<and>
     split_ws (strip (ustr ''# a 1.0 2.5'')) = [ustr ''#'', ustr ''a'', ustr ''1.0'', ustr ''2.5''] \<and>
     py_float decimal (ustr ''1.0'') = Some (PyFinite False 4503599627370496 (- 52)) \<and>
     py_float decimal (ustr ''2.5'') = Some (PyFinite False 5629499534213120 (- 51)) \<and>
     parse_edl_line decimal (ustr ''# a 1.0 2.5'') = (None, [])"
    using r w float_lit_1_0[of decimal] float_lit_2_5[of decimal] by simp
qed

end
